theory Spec2Isabelle
  imports Complex_Main
begin

section \<open>The resource collector of the system monitor\<close>

text \<open>
  A shallow embedding of \<^verbatim>\<open>system_monitor/resource_collector.py\<close> and of the sampling
  loop of \<^verbatim>\<open>system_monitor/monitor.py\<close>.

  The collector queries the operating system through \<^verbatim>\<open>psutil\<close>, \<^verbatim>\<open>GPUtil\<close>,
  \<^verbatim>\<open>time.time()\<close> and \<^verbatim>\<open>datetime.now()\<close>. Each query is an input of the model: the
  record \<open>os_tick\<close> holds what every query of one sampling tick answers, either a value
  or a raised exception. The handler of every adapter writes a diagnostic with
  \<^verbatim>\<open>print\<close> before it returns the default record; writing to the standard output can
  itself raise (a closed pipe, an encoding the stream does not have), so the outcome of
  each of these five writes is an input too, and an exception of the write leaves the
  adapter. Python floats are idealised as \<open>real\<close>, Python integers are \<open>int\<close>.
\<close>

subsection \<open>Exceptions\<close>

text \<open>
  The exception classes the code distinguishes: the temperature block of the CPU adapter
  handles \<^verbatim>\<open>AttributeError\<close>, \<^verbatim>\<open>KeyError\<close> and \<^verbatim>\<open>IndexError\<close>; every adapter handles
  \<^verbatim>\<open>Exception\<close>, of which all five are subclasses.
\<close>

datatype exn = AttributeError | KeyError | IndexError | ZeroDivisionError | OSError

type_synonym 'a raising = "exn + 'a"

definition and_then :: "'a raising \<Rightarrow> ('a \<Rightarrow> 'b raising) \<Rightarrow> 'b raising" where
  "and_then r f = (case r of Inl e \<Rightarrow> Inl e | Inr v \<Rightarrow> f v)"

definition attr_of :: "'a option \<Rightarrow> 'a raising" where
  \<comment> \<open>Reading an attribute of a value that may be \<^verbatim>\<open>None\<close>.\<close>
  "attr_of v = (case v of None \<Rightarrow> Inl AttributeError | Some x \<Rightarrow> Inr x)"

subsection \<open>What the operating system answers\<close>

record scpufreq =
  cf_current :: real
  cf_min :: real
  cf_max :: real

record shwtemp =
  label :: string
  current :: real

record svmem =
  vm_total :: int
  vm_available :: int
  vm_percent :: real
  vm_used :: int

record sswap =
  sw_total :: int
  sw_used :: int
  sw_percent :: real

record sdiskusage =
  du_total :: int
  du_used :: int
  du_free :: int
  du_percent :: real

record sdiskio =
  io_read_bytes :: int
  io_write_bytes :: int

record snetio =
  nio_bytes_sent :: int
  nio_bytes_recv :: int
  nio_packets_sent :: int
  nio_packets_recv :: int

text \<open>A device as \<^verbatim>\<open>GPUtil.getGPUs()\<close> lists it; \<open>load\<close> is a fraction between 0 and 1.\<close>

record GPU =
  gpu_id :: int
  gpu_name :: string
  gpu_load :: real
  memoryUsed :: real
  memoryTotal :: real
  gpu_temperature :: real

text \<open>
  The dictionary of \<^verbatim>\<open>psutil.sensors_temperatures()\<close>, in insertion order, which is the
  order of \<^verbatim>\<open>list(temps.keys())\<close>.
\<close>

type_synonym sensor_groups = "(string \<times> shwtemp list) list"

record os_tick =
  datetime_now :: real
  cpu_percent_call :: "real raising"
  cpu_count_call :: "int option raising"
  cpu_freq_call :: "scpufreq option raising"
  sensors_temperatures_call :: "sensor_groups raising"
  virtual_memory_call :: "svmem raising"
  swap_memory_call :: "sswap raising"
  disk_usage_call :: "sdiskusage raising"
  disk_io_counters_call :: "sdiskio option raising"
  time_time :: real
  net_io_counters_call :: "snetio option raising"
  getGPUs_call :: "GPU list raising"
  print_cpu_call :: "unit raising"
  print_memory_call :: "unit raising"
  print_disk_call :: "unit raising"
  print_network_call :: "unit raising"
  print_gpu_call :: "unit raising"

subsection \<open>The records of a snapshot\<close>

record cpu_info =
  cpu_percent :: real
  cpu_count :: "int option"
  freq_current :: "real option"
  freq_max :: "real option"
  temperature :: "real option"

record memory_info =
  mem_total :: int
  mem_available :: int
  mem_used :: int
  mem_percent :: real
  swap_total :: int
  swap_used :: int
  swap_percent :: real

record disk_info =
  disk_total :: int
  disk_used :: int
  disk_free :: int
  disk_percent :: real
  read_bytes :: int
  write_bytes :: int

record network_info =
  bytes_sent :: int
  bytes_recv :: int
  packets_sent :: int
  packets_recv :: int
  upload_speed_mbps :: real
  download_speed_mbps :: real

record gpu_entry =
  entry_id :: int
  entry_name :: string
  entry_load :: real
  memory_used :: real
  memory_total :: real
  memory_percent :: real
  entry_temperature :: real

record gpu_info =
  gpus :: "gpu_entry list"

record snapshot =
  timestamp :: real
  cpu :: cpu_info
  memory :: memory_info
  disk :: disk_info
  network :: network_info
  gpu :: "gpu_info option"

text \<open>
  The collector object: the history, and the last network counters with the time they
  were read at (the rate state). \<^verbatim>\<open>psutil.net_io_counters()\<close> answers \<^verbatim>\<open>None\<close> on a
  machine with no network interface, so \<open>network_last\<close> is optional.
\<close>

record collector =
  data_history :: "snapshot list"
  network_last :: "snetio option"
  last_time :: real

definition init_collector :: "snetio option raising \<Rightarrow> real \<Rightarrow> collector raising" where
  \<comment> \<open>\<^verbatim>\<open>ResourceCollector.__init__\<close>: no handler, an exception of the query propagates.\<close>
  "init_collector net_call now =
     and_then net_call (\<lambda>counters.
       Inr \<lparr>data_history = [], network_last = counters, last_time = now\<rparr>)"

subsection \<open>The CPU adapter\<close>

definition default_cpu_info :: cpu_info where
  "default_cpu_info =
     \<lparr>cpu_percent = 0, cpu_count = Some 0, freq_current = None, freq_max = None,
      temperature = None\<rparr>"

definition dict_contains :: "sensor_groups \<Rightarrow> string \<Rightarrow> bool" where
  "dict_contains temps k = (map_of temps k \<noteq> None)"

definition dict_getitem :: "sensor_groups \<Rightarrow> string \<Rightarrow> shwtemp list raising" where
  "dict_getitem temps k = (case map_of temps k of None \<Rightarrow> Inl KeyError | Some g \<Rightarrow> Inr g)"

definition first_current :: "shwtemp list \<Rightarrow> real raising" where
  \<comment> \<open>\<^verbatim>\<open>group[0].current\<close>\<close>
  "first_current g = (case g of [] \<Rightarrow> Inl IndexError | r # _ \<Rightarrow> Inr (current r))"

definition select_temperature :: "sensor_groups \<Rightarrow> real option raising" where
  \<comment> \<open>The \<^verbatim>\<open>if\<close>/\<^verbatim>\<open>elif\<close> chain inside the inner \<^verbatim>\<open>try\<close>.\<close>
  "select_temperature temps =
     (if dict_contains temps ''coretemp'' then
        and_then (and_then (dict_getitem temps ''coretemp'') first_current) (\<lambda>t. Inr (Some t))
      else if dict_contains temps ''cpu_thermal'' then
        and_then (and_then (dict_getitem temps ''cpu_thermal'') first_current) (\<lambda>t. Inr (Some t))
      else
        (case temps of
           [] \<Rightarrow> Inr None
         | (first_sensor, _) # _ \<Rightarrow>
             and_then (and_then (dict_getitem temps first_sensor) first_current)
               (\<lambda>t. Inr (Some t))))"

definition read_cpu_temp :: "sensor_groups raising \<Rightarrow> real option raising" where
  \<comment> \<open>The inner \<^verbatim>\<open>try\<close> with its \<^verbatim>\<open>except (AttributeError, KeyError, IndexError)\<close>.\<close>
  "read_cpu_temp call =
     (case and_then call select_temperature of
        Inl e \<Rightarrow> if e = AttributeError \<or> e = KeyError \<or> e = IndexError then Inr None else Inl e
      | Inr t \<Rightarrow> Inr t)"

definition cpu_info_body :: "os_tick \<Rightarrow> cpu_info raising" where
  "cpu_info_body os =
     and_then (cpu_percent_call os) (\<lambda>percent.
     and_then (cpu_count_call os) (\<lambda>count.
     and_then (cpu_freq_call os) (\<lambda>freq.
     and_then (read_cpu_temp (sensors_temperatures_call os)) (\<lambda>cpu_temp.
       Inr \<lparr>cpu_percent = percent, cpu_count = count,
            freq_current = map_option cf_current freq,
            freq_max = map_option cf_max freq,
            temperature = cpu_temp\<rparr>))))"

definition collect_cpu_info :: "os_tick \<Rightarrow> cpu_info raising" where
  \<comment> \<open>The handler: \<^verbatim>\<open>print(...)\<close>, then \<^verbatim>\<open>return\<close> the default record.\<close>
  "collect_cpu_info os =
     (case cpu_info_body os of
        Inl e \<Rightarrow> and_then (print_cpu_call os) (\<lambda>u. Inr default_cpu_info)
      | Inr r \<Rightarrow> Inr r)"

subsection \<open>The memory and disk adapters\<close>

definition default_memory_info :: memory_info where
  "default_memory_info =
     \<lparr>mem_total = 0, mem_available = 0, mem_used = 0, mem_percent = 0,
      swap_total = 0, swap_used = 0, swap_percent = 0\<rparr>"

definition memory_info_body :: "os_tick \<Rightarrow> memory_info raising" where
  "memory_info_body os =
     and_then (virtual_memory_call os) (\<lambda>mem.
     and_then (swap_memory_call os) (\<lambda>swap.
       Inr \<lparr>mem_total = vm_total mem, mem_available = vm_available mem,
            mem_used = vm_used mem, mem_percent = vm_percent mem,
            swap_total = sw_total swap, swap_used = sw_used swap,
            swap_percent = sw_percent swap\<rparr>))"

definition collect_memory_info :: "os_tick \<Rightarrow> memory_info raising" where
  "collect_memory_info os =
     (case memory_info_body os of
        Inl e \<Rightarrow> and_then (print_memory_call os) (\<lambda>u. Inr default_memory_info)
      | Inr r \<Rightarrow> Inr r)"

definition default_disk_info :: disk_info where
  "default_disk_info =
     \<lparr>disk_total = 0, disk_used = 0, disk_free = 0, disk_percent = 0,
      read_bytes = 0, write_bytes = 0\<rparr>"

definition disk_info_body :: "os_tick \<Rightarrow> disk_info raising" where
  "disk_info_body os =
     and_then (disk_usage_call os) (\<lambda>usage.
     and_then (disk_io_counters_call os) (\<lambda>disk_io.
       Inr \<lparr>disk_total = du_total usage, disk_used = du_used usage,
            disk_free = du_free usage, disk_percent = du_percent usage,
            read_bytes = (case disk_io of None \<Rightarrow> 0 | Some io \<Rightarrow> io_read_bytes io),
            write_bytes = (case disk_io of None \<Rightarrow> 0 | Some io \<Rightarrow> io_write_bytes io)\<rparr>))"

definition collect_disk_info :: "os_tick \<Rightarrow> disk_info raising" where
  "collect_disk_info os =
     (case disk_info_body os of
        Inl e \<Rightarrow> and_then (print_disk_call os) (\<lambda>u. Inr default_disk_info)
      | Inr r \<Rightarrow> Inr r)"

subsection \<open>The network adapter and its rate state\<close>

definition default_network_info :: network_info where
  "default_network_info =
     \<lparr>bytes_sent = 0, bytes_recv = 0, packets_sent = 0, packets_recv = 0,
      upload_speed_mbps = 0, download_speed_mbps = 0\<rparr>"

definition speed_mbps :: "int \<Rightarrow> real \<Rightarrow> real" where
  \<comment> \<open>\<^verbatim>\<open>(diff / time_delta) * 8 / 1_000_000 if time_delta > 0 else 0\<close>\<close>
  "speed_mbps bytes_diff time_delta =
     (if time_delta > 0 then (real_of_int bytes_diff / time_delta) * 8 / 1000000 else 0)"

definition network_info_body :: "os_tick \<Rightarrow> collector \<Rightarrow> (network_info \<times> collector) raising" where
  "network_info_body os c =
     (let current_time = time_time os in
      and_then (net_io_counters_call os) (\<lambda>network_current.
        let time_delta = current_time - last_time c in
        and_then (attr_of network_current) (\<lambda>cur.
        and_then (attr_of (network_last c)) (\<lambda>last.
          let bytes_sent_diff = nio_bytes_sent cur - nio_bytes_sent last;
              bytes_recv_diff = nio_bytes_recv cur - nio_bytes_recv last;
              upload_speed = speed_mbps bytes_sent_diff time_delta;
              download_speed = speed_mbps bytes_recv_diff time_delta
          in Inr (\<lparr>bytes_sent = nio_bytes_sent cur, bytes_recv = nio_bytes_recv cur,
                   packets_sent = nio_packets_sent cur, packets_recv = nio_packets_recv cur,
                   upload_speed_mbps = upload_speed, download_speed_mbps = download_speed\<rparr>,
                  c\<lparr>network_last := network_current, last_time := current_time\<rparr>)))))"

text \<open>
  The adapter returns what it returns or raises together with the collector it leaves
  behind. On an exception of the body nothing has been assigned yet: the collector is as
  it was, whether the handler's \<^verbatim>\<open>print\<close> then returns or raises.
\<close>

definition collect_network_info ::
  "os_tick \<Rightarrow> collector \<Rightarrow> network_info raising \<times> collector" where
  "collect_network_info os c =
     (case network_info_body os c of
        Inl e \<Rightarrow> (and_then (print_network_call os) (\<lambda>u. Inr default_network_info), c)
      | Inr (info, c1) \<Rightarrow> (Inr info, c1))"

subsection \<open>The GPU adapter\<close>

definition gpu_entry_of :: "GPU \<Rightarrow> gpu_entry" where
  "gpu_entry_of g =
     \<lparr>entry_id = gpu_id g, entry_name = gpu_name g, entry_load = gpu_load g * 100,
      memory_used = memoryUsed g, memory_total = memoryTotal g,
      memory_percent = (if memoryTotal g > 0 then memoryUsed g / memoryTotal g * 100 else 0),
      entry_temperature = gpu_temperature g\<rparr>"

definition collect_gpu_info :: "bool \<Rightarrow> os_tick \<Rightarrow> gpu_info option raising" where
  \<comment> \<open>The first argument is the module's \<^verbatim>\<open>GPU_AVAILABLE\<close>: whether GPUtil was imported.\<close>
  "collect_gpu_info GPU_AVAILABLE os =
     (if \<not> GPU_AVAILABLE then Inr None
      else case getGPUs_call os of
             Inl e \<Rightarrow> and_then (print_gpu_call os) (\<lambda>u. Inr None)
           | Inr devices \<Rightarrow>
               if devices = [] then Inr None
               else Inr (Some \<lparr>gpus = map gpu_entry_of devices\<rparr>))"

subsection \<open>One sampling tick and the history\<close>

text \<open>
  \<^verbatim>\<open>collect_all\<close> has no handler. The entries of its dictionary are evaluated in the
  order written, so an adapter that raises ends the tick before the later adapters run
  and before the append; the network adapter may have updated the rate state by then.
\<close>

definition collect_all :: "bool \<Rightarrow> os_tick \<Rightarrow> collector \<Rightarrow> snapshot raising \<times> collector" where
  "collect_all GPU_AVAILABLE os c =
     (let timestamp_now = datetime_now os in
      case collect_cpu_info os of
        Inl e \<Rightarrow> (Inl e, c)
      | Inr cpu_rec \<Rightarrow>
      (case collect_memory_info os of
        Inl e \<Rightarrow> (Inl e, c)
      | Inr memory_rec \<Rightarrow>
      (case collect_disk_info os of
        Inl e \<Rightarrow> (Inl e, c)
      | Inr disk_rec \<Rightarrow>
      (case collect_network_info os c of
        (Inl e, c1) \<Rightarrow> (Inl e, c1)
      | (Inr network_rec, c1) \<Rightarrow>
      (case collect_gpu_info GPU_AVAILABLE os of
        Inl e \<Rightarrow> (Inl e, c1)
      | Inr gpu_rec \<Rightarrow>
          (let data = \<lparr>timestamp = timestamp_now, cpu = cpu_rec, memory = memory_rec,
                        disk = disk_rec, network = network_rec, gpu = gpu_rec\<rparr>
           in (Inr data, c1\<lparr>data_history := data_history c1 @ [data]\<rparr>)))))))"

definition get_history :: "collector \<Rightarrow> snapshot list \<times> collector" where
  "get_history c = (data_history c, c)"

definition clear_history :: "collector \<Rightarrow> collector" where
  "clear_history c = c\<lparr>data_history := []\<rparr>"

text \<open>
  Sampler invocations one after the other, as a caller makes them that goes on after an
  invocation that raised. The result lists the invocations that returned, each with its
  snapshot, and gives the collector at the end.
\<close>

fun ticks :: "bool \<Rightarrow> os_tick list \<Rightarrow> collector \<Rightarrow> (os_tick \<times> snapshot) list \<times> collector" where
  "ticks GPU_AVAILABLE [] c = ([], c)"
| "ticks GPU_AVAILABLE (os # rest) c =
     (let (out, c1) = collect_all GPU_AVAILABLE os c;
          (returned, c2) = ticks GPU_AVAILABLE rest c1
      in (case out of Inl e \<Rightarrow> returned | Inr data \<Rightarrow> (os, data) # returned, c2))"

definition prints_return :: "os_tick \<Rightarrow> bool" where
  \<comment> \<open>The standard output takes every diagnostic of the tick.\<close>
  "prints_return os =
     (print_cpu_call os = Inr () \<and> print_memory_call os = Inr ()
      \<and> print_disk_call os = Inr () \<and> print_network_call os = Inr ()
      \<and> print_gpu_call os = Inr ())"

fun read_times :: "nat \<Rightarrow> collector \<Rightarrow> snapshot list list \<times> collector" where
  "read_times 0 c = ([], c)"
| "read_times (Suc n) c =
     (let (h, c1) = get_history c; (hs, c2) = read_times n c1 in (h # hs, c2))"

subsection \<open>The sampling loop of \<^verbatim>\<open>monitor_system\<close>\<close>

text \<open>
  What happens in one iteration of the \<^verbatim>\<open>for\<close> loop besides the answers of the operating
  system: nothing is raised, or something is raised that one of the loop's two handlers
  catches (\<^verbatim>\<open>except KeyboardInterrupt\<close>, \<^verbatim>\<open>except Exception\<close>), either inside
  \<^verbatim>\<open>collect_all\<close> before the snapshot is appended (the CPU query alone waits one second
  there) or after \<^verbatim>\<open>collect_all\<close> returned, in the progress output or in
  \<^verbatim>\<open>time.sleep\<close>. A raise before the append leaves the history as it was; the rate state
  is not read again after it, so the model leaves the whole collector as it was. An
  exception that \<^verbatim>\<open>collect_all\<close> itself raises (the diagnostic of an adapter's handler
  could not be written) reaches \<^verbatim>\<open>except Exception\<close> of the loop.
\<close>

datatype handler = On_KeyboardInterrupt | On_Exception

datatype raise_point = Before_append | After_append

record iteration =
  os_answers :: os_tick
  raised :: "(handler \<times> raise_point) option"

datatype loop_exit = Completed collector | Break collector | Return collector

definition handler_exit :: "nat \<Rightarrow> collector \<Rightarrow> loop_exit" where
  \<comment> \<open>Both handlers: \<^verbatim>\<open>if i > 0: break\<close>, \<^verbatim>\<open>else: return\<close>.\<close>
  "handler_exit i c = (if i > 0 then Break c else Return c)"

fun sampling_loop :: "bool \<Rightarrow> (nat \<Rightarrow> iteration) \<Rightarrow> nat \<Rightarrow> nat \<Rightarrow> collector \<Rightarrow> loop_exit" where
  \<comment> \<open>\<open>i\<close> is the loop index, the fourth argument the number of iterations left.\<close>
  "sampling_loop GPU_AVAILABLE sched i 0 c = Completed c"
| "sampling_loop GPU_AVAILABLE sched i (Suc left) c =
     (case raised (sched i) of
        None \<Rightarrow>
          (case collect_all GPU_AVAILABLE (os_answers (sched i)) c of
             (Inl e, c1) \<Rightarrow> handler_exit i c1
           | (Inr data, c1) \<Rightarrow> sampling_loop GPU_AVAILABLE sched (Suc i) left c1)
      | Some (h, Before_append) \<Rightarrow> handler_exit i c
      | Some (h, After_append) \<Rightarrow>
          handler_exit i (snd (collect_all GPU_AVAILABLE (os_answers (sched i)) c)))"

text \<open>
  How \<^verbatim>\<open>monitor_system\<close> ends: it returns before any rendering (holding the history
  given), it reaches \<^verbatim>\<open>generate_all_graphs\<close> and \<^verbatim>\<open>generate_report\<close> with the history,
  or an exception leaves it. The renderers themselves are outside the model.
\<close>

datatype outcome =
  Exits_without_report "snapshot list"
  | Renders "snapshot list"
  | Propagates exn

definition after_loop :: "collector \<Rightarrow> outcome" where
  "after_loop c =
     (let (history, c1) = get_history c
      in if history = [] then Exits_without_report [] else Renders history)"

definition monitor_system ::
  "bool \<Rightarrow> snetio option raising \<Rightarrow> real \<Rightarrow> int \<Rightarrow> int \<Rightarrow> (nat \<Rightarrow> iteration) \<Rightarrow> outcome" where
  "monitor_system GPU_AVAILABLE init_net init_time duration_minutes interval_seconds sched =
     (case init_collector init_net init_time of
        Inl e \<Rightarrow> Propagates e
      | Inr collector \<Rightarrow>
          if interval_seconds = 0 then Propagates ZeroDivisionError
          else
            let total_iterations = (duration_minutes * 60) div interval_seconds in
            (case sampling_loop GPU_AVAILABLE sched 0 (nat total_iterations) collector of
               Return c \<Rightarrow> Exits_without_report (data_history c)
             | Break c \<Rightarrow> after_loop c
             | Completed c \<Rightarrow> after_loop c))"

definition rendered :: "outcome \<Rightarrow> snapshot list option" where
  "rendered out = (case out of Renders h \<Rightarrow> Some h | _ \<Rightarrow> None)"

subsection \<open>The selection rule and test inputs\<close>

text \<open>
  The temperature rule in the words of the specification: the first reading of the
  \<open>coretemp\<close> group if that group is present, else the first reading of the
  \<open>cpu_thermal\<close> group if present, else the first reading of the first group, else
  absent. A group without readings has no first reading.
\<close>

definition first_reading :: "shwtemp list \<Rightarrow> real option" where
  "first_reading g = (case g of [] \<Rightarrow> None | r # _ \<Rightarrow> Some (current r))"

definition temperature_rule :: "sensor_groups \<Rightarrow> real option" where
  "temperature_rule temps =
     (case map_of temps ''coretemp'' of
        Some g \<Rightarrow> first_reading g
      | None \<Rightarrow>
          (case map_of temps ''cpu_thermal'' of
             Some g \<Rightarrow> first_reading g
           | None \<Rightarrow> (case temps of [] \<Rightarrow> None | (k, g) # _ \<Rightarrow> first_reading g)))"

definition reading :: "real \<Rightarrow> shwtemp" where
  "reading t = \<lparr>label = ''Core 0'', current = t\<rparr>"

definition counters :: "int \<Rightarrow> int \<Rightarrow> snetio" where
  "counters sent recv =
     \<lparr>nio_bytes_sent = sent, nio_bytes_recv = recv, nio_packets_sent = 7, nio_packets_recv = 9\<rparr>"

definition device :: "real \<Rightarrow> real \<Rightarrow> GPU" where
  "device used_mb total_mb =
     \<lparr>gpu_id = 0, gpu_name = ''GPU'', gpu_load = 1 / 2, memoryUsed = used_mb, memoryTotal = total_mb,
      gpu_temperature = 60\<rparr>"

definition healthy_tick :: "real \<Rightarrow> snetio \<Rightarrow> sensor_groups \<Rightarrow> GPU list \<Rightarrow> os_tick" where
  \<comment> \<open>Every query answers; the wall clock and \<^verbatim>\<open>time.time()\<close> both read \<open>now\<close>.\<close>
  "healthy_tick now net temps devices =
     \<lparr>datetime_now = now,
      cpu_percent_call = Inr 42,
      cpu_count_call = Inr (Some 4),
      cpu_freq_call = Inr (Some \<lparr>cf_current = 2400, cf_min = 800, cf_max = 3600\<rparr>),
      sensors_temperatures_call = Inr temps,
      virtual_memory_call =
        Inr \<lparr>vm_total = 16000, vm_available = 6000, vm_percent = 62.5, vm_used = 10000\<rparr>,
      swap_memory_call = Inr \<lparr>sw_total = 2000, sw_used = 500, sw_percent = 25\<rparr>,
      disk_usage_call =
        Inr \<lparr>du_total = 1000, du_used = 400, du_free = 600, du_percent = 40\<rparr>,
      disk_io_counters_call = Inr (Some \<lparr>io_read_bytes = 11, io_write_bytes = 13\<rparr>),
      time_time = now,
      net_io_counters_call = Inr (Some net),
      getGPUs_call = Inr devices,
      print_cpu_call = Inr (), print_memory_call = Inr (), print_disk_call = Inr (),
      print_network_call = Inr (), print_gpu_call = Inr ()\<rparr>"

definition failing_tick :: "real \<Rightarrow> os_tick" where
  \<comment> \<open>Every query that can raise does; the diagnostics are written.\<close>
  "failing_tick now =
     \<lparr>datetime_now = now,
      cpu_percent_call = Inl OSError,
      cpu_count_call = Inl OSError,
      cpu_freq_call = Inl OSError,
      sensors_temperatures_call = Inl OSError,
      virtual_memory_call = Inl OSError,
      swap_memory_call = Inl OSError,
      disk_usage_call = Inl OSError,
      disk_io_counters_call = Inl OSError,
      time_time = now,
      net_io_counters_call = Inl OSError,
      getGPUs_call = Inl OSError,
      print_cpu_call = Inr (), print_memory_call = Inr (), print_disk_call = Inr (),
      print_network_call = Inr (), print_gpu_call = Inr ()\<rparr>"

definition closed_stdout_tick :: "real \<Rightarrow> os_tick" where
  \<comment> \<open>The CPU load query raises and the standard output is a closed pipe.\<close>
  "closed_stdout_tick now =
     (healthy_tick now (counters 0 0) [] [])
       \<lparr>cpu_percent_call := Inl OSError, print_cpu_call := Inl OSError\<rparr>"

definition fresh_collector :: "snetio \<Rightarrow> real \<Rightarrow> collector" where
  "fresh_collector net now = \<lparr>data_history = [], network_last = Some net, last_time = now\<rparr>"

definition clock_set_back :: "nat \<Rightarrow> iteration" where
  \<comment> \<open>Two undisturbed ticks; the clock reads 7200 at the first and 7170 at the second.\<close>
  "clock_set_back i =
     \<lparr>os_answers = healthy_tick (if i = 0 then 7200 else 7170) (counters 0 0) [] [],
      raised = None\<rparr>"

definition interrupted_in_first_sleep :: "nat \<Rightarrow> iteration" where
  \<comment> \<open>The first tick is collected; a KeyboardInterrupt arrives in the sleep after it.\<close>
  "interrupted_in_first_sleep i =
     \<lparr>os_answers = healthy_tick (100 + 20 * real i) (counters 0 0) [] [],
      raised = (if i = 0 then Some (On_KeyboardInterrupt, After_append) else None)\<rparr>"

definition exit_collector :: "loop_exit \<Rightarrow> collector" where
  \<comment> \<open>The collector the loop holds when it ends, however it ends.\<close>
  "exit_collector x = (case x of Completed c \<Rightarrow> c | Break c \<Rightarrow> c | Return c \<Rightarrow> c)"



section \<open>Facts about the network adapter\<close>

lemma collect_network_info_reads:
  assumes "net_io_counters_call os = Inr (Some cur)" and "network_last c = Some prev"
  shows "collect_network_info os c =
    (Inr \<lparr>bytes_sent = nio_bytes_sent cur, bytes_recv = nio_bytes_recv cur,
      packets_sent = nio_packets_sent cur, packets_recv = nio_packets_recv cur,
      upload_speed_mbps =
        speed_mbps (nio_bytes_sent cur - nio_bytes_sent prev) (time_time os - last_time c),
      download_speed_mbps =
        speed_mbps (nio_bytes_recv cur - nio_bytes_recv prev) (time_time os - last_time c)\<rparr>,
     c\<lparr>network_last := Some cur, last_time := time_time os\<rparr>)"
  using assms
  by (simp add: collect_network_info_def network_info_body_def and_then_def attr_of_def Let_def)

lemma collect_network_info_fails:
  assumes "net_io_counters_call os = Inl e \<or> net_io_counters_call os = Inr None
    \<or> network_last c = None"
  shows "collect_network_info os c =
    (case print_network_call os of Inl e' \<Rightarrow> Inl e' | Inr u \<Rightarrow> Inr default_network_info, c)"
  using assms
  by (auto simp: collect_network_info_def network_info_body_def and_then_def attr_of_def Let_def
      split: sum.splits option.splits)

section \<open>The network rate and the rate state\<close>

text \<open>
  Claim C1. When the network adapter reads the counters (the query answers counters and
  the collector holds earlier ones), it returns a record whose upload and download rates
  are \<open>\<Delta>bytes / \<Delta>t * 8 / 1000000\<close> for \<open>\<Delta>t > 0\<close> and 0 for \<open>\<Delta>t \<le> 0\<close>, where
  \<open>\<Delta>t\<close> is the current time minus \<open>last_time\<close> and \<open>\<Delta>bytes\<close> the difference of the
  cumulative counters of that direction. The witness is the case of 125000 bytes sent in
  one second, which is 1 Mbps.
\<close>

theorem network_rate_derivation:
  assumes "net_io_counters_call os = Inr (Some cur)" and "network_last c = Some prev"
  shows "\<exists>info. fst (collect_network_info os c) = Inr info
    \<and> upload_speed_mbps info =
      (if time_time os - last_time c > 0
       then real_of_int (nio_bytes_sent cur - nio_bytes_sent prev) / (time_time os - last_time c)
              * 8 / 1000000
       else 0)
    \<and> download_speed_mbps info =
      (if time_time os - last_time c > 0
       then real_of_int (nio_bytes_recv cur - nio_bytes_recv prev) / (time_time os - last_time c)
              * 8 / 1000000
       else 0)"
  by (simp add: collect_network_info_reads [OF assms] speed_mbps_def)

theorem network_rate_derivation_witness:
  "\<exists>info. fst (collect_network_info (healthy_tick 11 (counters 126000 3000) [] [])
        (fresh_collector (counters 1000 3000) 10)) = Inr info
    \<and> upload_speed_mbps info = 1 \<and> download_speed_mbps info = 0"
  using network_rate_derivation [of "healthy_tick 11 (counters 126000 3000) [] []"
      "counters 126000 3000" "fresh_collector (counters 1000 3000) 10" "counters 1000 3000"]
  by (simp add: healthy_tick_def fresh_collector_def counters_def)

text \<open>
  Claim C5. Whenever the network adapter reads the counters, it returns and the rate
  state becomes the counters and the time just read, whatever \<open>\<Delta>t\<close> is; for
  \<open>\<Delta>t \<le> 0\<close> both reported rates are 0 and the state is updated all the same. The
  history is not touched.
\<close>

theorem rate_state_always_updated:
  assumes "net_io_counters_call os = Inr (Some cur)" and "network_last c = Some prev"
  shows "network_last (snd (collect_network_info os c)) = Some cur
    \<and> last_time (snd (collect_network_info os c)) = time_time os
    \<and> data_history (snd (collect_network_info os c)) = data_history c
    \<and> (\<exists>info. fst (collect_network_info os c) = Inr info
         \<and> (time_time os - last_time c \<le> 0 \<longrightarrow>
              upload_speed_mbps info = 0 \<and> download_speed_mbps info = 0))"
  by (simp add: collect_network_info_reads [OF assms] speed_mbps_def)

theorem rate_state_always_updated_witness:
  "network_last (snd (collect_network_info (healthy_tick 10 (counters 126000 5000) [] [])
        (fresh_collector (counters 1000 3000) 10))) = Some (counters 126000 5000)
   \<and> last_time (snd (collect_network_info (healthy_tick 10 (counters 126000 5000) [] [])
        (fresh_collector (counters 1000 3000) 10))) = 10
   \<and> (\<exists>info. fst (collect_network_info (healthy_tick 10 (counters 126000 5000) [] [])
        (fresh_collector (counters 1000 3000) 10)) = Inr info
       \<and> upload_speed_mbps info = 0 \<and> download_speed_mbps info = 0)"
  using rate_state_always_updated [of "healthy_tick 10 (counters 126000 5000) [] []"
      "counters 126000 5000" "fresh_collector (counters 1000 3000) 10" "counters 1000 3000"]
  by (simp add: healthy_tick_def fresh_collector_def)

text \<open>
  Claim C9. When the network adapter fails inside (the query raises, or answers no
  counters, or the collector holds none), the collector is exactly as before, whether
  the handler then returns the zeroed record (its diagnostic is written) or the write of
  the diagnostic raises: the next invocation computes what it would have computed
  without the failed one, so its rates span the failed tick.
\<close>

theorem rate_state_kept_on_failure:
  assumes "net_io_counters_call os = Inl e \<or> net_io_counters_call os = Inr None
    \<or> network_last c = None"
  shows "snd (collect_network_info os c) = c
    \<and> fst (collect_network_info os c) =
        (case print_network_call os of Inl e' \<Rightarrow> Inl e' | Inr u \<Rightarrow> Inr default_network_info)
    \<and> collect_network_info os' (snd (collect_network_info os c)) = collect_network_info os' c"
  by (simp add: collect_network_info_fails [OF assms])

theorem rate_state_kept_on_failure_witness:
  "collect_network_info (failing_tick 11) (fresh_collector (counters 1000 3000) 10)
     = (Inr default_network_info, fresh_collector (counters 1000 3000) 10)
   \<and> (\<exists>info. fst (collect_network_info (healthy_tick 12 (counters 251000 3000) [] [])
          (snd (collect_network_info (failing_tick 11)
             (fresh_collector (counters 1000 3000) 10)))) = Inr info
        \<and> upload_speed_mbps info = 1)"
proof -
  let ?c = "fresh_collector (counters 1000 3000) 10"
  have fails: "net_io_counters_call (failing_tick 11) = Inl OSError
      \<or> net_io_counters_call (failing_tick 11) = Inr None
      \<or> network_last ?c = None"
    by (simp add: failing_tick_def)
  note kept = rate_state_kept_on_failure [OF fails,
      of "healthy_tick 12 (counters 251000 3000) [] []"]
  have written: "print_network_call (failing_tick 11) = Inr ()"
    by (simp add: failing_tick_def)
  have first: "collect_network_info (failing_tick 11) ?c = (Inr default_network_info, ?c)"
    using kept written by (simp add: prod_eq_iff)
  have "\<exists>info. fst (collect_network_info (healthy_tick 12 (counters 251000 3000) [] []) ?c)
      = Inr info \<and> upload_speed_mbps info = 1"
    by (simp add: collect_network_info_reads [of _ "counters 251000 3000" _ "counters 1000 3000"]
        healthy_tick_def fresh_collector_def counters_def speed_mbps_def)
  with kept first show ?thesis by simp
qed

section \<open>The GPU adapter\<close>

lemma collect_gpu_info_devices:
  assumes "getGPUs_call os = Inr devices" and "devices \<noteq> []"
  shows "collect_gpu_info True os = Inr (Some \<lparr>gpus = map gpu_entry_of devices\<rparr>)"
  using assms by (simp add: collect_gpu_info_def)

text \<open>
  Claim C6. For the devices the driver lists, every record of the GPU adapter has as
  load the driver's fractional load times 100, and as memory percentage
  \<open>used / total * 100\<close> when the total is positive and 0 otherwise, in particular when
  the total is 0: the adapter still returns its records, no division fails. The witness
  holds the two cases of the specification: 2000 of 0 gives 0, 2000 of 8000 gives 25.
\<close>

theorem gpu_derived_fields:
  assumes "getGPUs_call os = Inr devices" and "devices \<noteq> []"
  shows "\<exists>info. collect_gpu_info True os = Inr (Some info)
    \<and> map entry_load (gpus info) = map (\<lambda>g. gpu_load g * 100) devices
    \<and> map memory_percent (gpus info) =
        map (\<lambda>g. if memoryTotal g > 0 then memoryUsed g / memoryTotal g * 100 else 0) devices"
  by (simp add: collect_gpu_info_devices [OF assms] gpu_entry_of_def)

theorem gpu_derived_fields_witness:
  "\<exists>info. collect_gpu_info True
        (healthy_tick 5 (counters 0 0) [] [device 2000 0, device 2000 8000]) = Inr (Some info)
    \<and> map entry_load (gpus info) = [50, 50]
    \<and> map memory_percent (gpus info) = [0, 25]"
  using gpu_derived_fields [of "healthy_tick 5 (counters 0 0) [] [device 2000 0, device 2000 8000]"
      "[device 2000 0, device 2000 8000]"]
  by (simp add: healthy_tick_def device_def)

text \<open>
  Claim C8. The GPU adapter returns nothing when the GPU library is not present, and
  nothing when the library is present and lists no device; when it lists devices, it
  returns one record per device, in the order of the devices.
\<close>

theorem gpu_absence:
  "collect_gpu_info False os = Inr None
   \<and> (getGPUs_call os = Inr [] \<longrightarrow> collect_gpu_info True os = Inr None)
   \<and> (getGPUs_call os = Inr devices \<and> devices \<noteq> [] \<longrightarrow>
        collect_gpu_info True os = Inr (Some \<lparr>gpus = map gpu_entry_of devices\<rparr>)
        \<and> length (map gpu_entry_of devices) = length devices)"
  by (simp add: collect_gpu_info_def)

theorem gpu_absence_witness:
  "collect_gpu_info False (healthy_tick 5 (counters 0 0) [] [device 2000 8000]) = Inr None
   \<and> collect_gpu_info True (healthy_tick 5 (counters 0 0) [] []) = Inr None
   \<and> collect_gpu_info True (healthy_tick 5 (counters 0 0) [] [device 2000 8000, device 1 2])
      = Inr (Some \<lparr>gpus = [gpu_entry_of (device 2000 8000), gpu_entry_of (device 1 2)]\<rparr>)"
  using gpu_absence [of "healthy_tick 5 (counters 0 0) [] [device 2000 8000]"
      "[device 2000 8000]"]
    gpu_absence [of "healthy_tick 5 (counters 0 0) [] []" "[]"]
    gpu_absence [of "healthy_tick 5 (counters 0 0) [] [device 2000 8000, device 1 2]"
      "[device 2000 8000, device 1 2]"]
  by (simp add: healthy_tick_def)

section \<open>Reading the history\<close>

text \<open>
  Claim C10. Reading the history any number of times in a row returns the same sequence
  every time, the history of the collector, and leaves the collector as it was.
\<close>

theorem read_is_idempotent:
  "fst (read_times n c) = replicate n (data_history c) \<and> snd (read_times n c) = c"
  by (induction n) (auto simp: get_history_def split: prod.splits)

theorem read_is_idempotent_witness:
  "fst (read_times (Suc (Suc 0))
       (snd (collect_all False (failing_tick 11) (fresh_collector (counters 1000 3000) 10))))
     = [data_history
          (snd (collect_all False (failing_tick 11) (fresh_collector (counters 1000 3000) 10))),
        data_history
          (snd (collect_all False (failing_tick 11) (fresh_collector (counters 1000 3000) 10)))]
   \<and> snd (read_times (Suc (Suc 0))
       (snd (collect_all False (failing_tick 11) (fresh_collector (counters 1000 3000) 10))))
     = snd (collect_all False (failing_tick 11) (fresh_collector (counters 1000 3000) 10))"
  using read_is_idempotent [of "Suc (Suc 0)"
      "snd (collect_all False (failing_tick 11) (fresh_collector (counters 1000 3000) 10))"]
  by simp

section \<open>The CPU temperature\<close>

lemma select_temperature_rule:
  "(case select_temperature temps of
      Inl e \<Rightarrow> e = IndexError \<and> temperature_rule temps = None
    | Inr t \<Rightarrow> temperature_rule temps = t)"
  by (auto simp: select_temperature_def temperature_rule_def dict_contains_def dict_getitem_def
      first_current_def first_reading_def and_then_def
      split: option.splits list.splits sum.splits)

lemma read_cpu_temp_rule: "read_cpu_temp (Inr temps) = Inr (temperature_rule temps)"
  using select_temperature_rule [of temps]
  by (auto simp: read_cpu_temp_def and_then_def split: sum.splits)

text \<open>
  Claim C4. For every dictionary of sensor groups the operating system answers, the
  temperature the CPU adapter selects is the one of the rule: the first reading of
  \<open>coretemp\<close> if present, else of \<open>cpu_thermal\<close> if present, else of the first
  group, else absent; and this is the temperature of the record the adapter returns when
  its other queries answer. The witness holds the three cases of the specification.
\<close>

theorem cpu_temperature_selection:
  "read_cpu_temp (Inr temps) = Inr (temperature_rule temps)
   \<and> (cpu_percent_call os = Inr p \<and> cpu_count_call os = Inr n \<and> cpu_freq_call os = Inr f
        \<and> sensors_temperatures_call os = Inr temps \<longrightarrow>
      (\<exists>r. collect_cpu_info os = Inr r \<and> temperature r = temperature_rule temps))"
  by (simp add: read_cpu_temp_rule collect_cpu_info_def cpu_info_body_def and_then_def)

theorem cpu_temperature_selection_witness:
  "(\<exists>r. collect_cpu_info (healthy_tick 5 (counters 0 0)
       [(''coretemp'', [reading 71]), (''other'', [reading 55])] []) = Inr r
      \<and> temperature r = Some 71)
   \<and> (\<exists>r. collect_cpu_info (healthy_tick 5 (counters 0 0)
       [(''other'', [reading 55])] []) = Inr r \<and> temperature r = Some 55)
   \<and> (\<exists>r. collect_cpu_info (healthy_tick 5 (counters 0 0) [] []) = Inr r
      \<and> temperature r = None)
   \<and> (\<exists>r. collect_cpu_info (healthy_tick 5 (counters 0 0)
       [(''other'', [reading 55]), (''cpu_thermal'', [reading 48, reading 50])] []) = Inr r
      \<and> temperature r = Some 48)"
  using
    cpu_temperature_selection [of "[(''coretemp'', [reading 71]), (''other'', [reading 55])]"
      "healthy_tick 5 (counters 0 0) [(''coretemp'', [reading 71]), (''other'', [reading 55])] []"
      42 "Some 4" "Some \<lparr>cf_current = 2400, cf_min = 800, cf_max = 3600\<rparr>"]
    cpu_temperature_selection [of "[(''other'', [reading 55])]"
      "healthy_tick 5 (counters 0 0) [(''other'', [reading 55])] []"
      42 "Some 4" "Some \<lparr>cf_current = 2400, cf_min = 800, cf_max = 3600\<rparr>"]
    cpu_temperature_selection [of "[]"
      "healthy_tick 5 (counters 0 0) [] []"
      42 "Some 4" "Some \<lparr>cf_current = 2400, cf_min = 800, cf_max = 3600\<rparr>"]
    cpu_temperature_selection [of
      "[(''other'', [reading 55]), (''cpu_thermal'', [reading 48, reading 50])]"
      "healthy_tick 5 (counters 0 0)
         [(''other'', [reading 55]), (''cpu_thermal'', [reading 48, reading 50])] []"
      42 "Some 4" "Some \<lparr>cf_current = 2400, cf_min = 800, cf_max = 3600\<rparr>"]
  by (simp add: healthy_tick_def temperature_rule_def first_reading_def reading_def)

section \<open>The history\<close>

lemma collect_network_info_history:
  "data_history (snd (collect_network_info os c)) = data_history c"
  by (auto simp: collect_network_info_def network_info_body_def and_then_def attr_of_def Let_def
      split: sum.splits option.splits prod.splits)

lemma collect_all_returns:
  assumes "fst (collect_all G os c) = Inr s"
  shows "data_history (snd (collect_all G os c)) = data_history c @ [s]"
    and "timestamp s = datetime_now os"
    and "collect_cpu_info os = Inr (cpu s)"
    and "collect_memory_info os = Inr (memory s)"
    and "collect_disk_info os = Inr (disk s)"
    and "fst (collect_network_info os c) = Inr (network s)"
    and "collect_gpu_info G os = Inr (gpu s)"
  using assms collect_network_info_history [of os c]
  by (auto simp: collect_all_def Let_def split: sum.splits prod.splits)

lemma collect_all_raises:
  assumes "fst (collect_all G os c) = Inl e"
  shows "data_history (snd (collect_all G os c)) = data_history c"
    and "collect_cpu_info os = Inl e \<or> collect_memory_info os = Inl e
      \<or> collect_disk_info os = Inl e \<or> fst (collect_network_info os c) = Inl e
      \<or> collect_gpu_info G os = Inl e"
  using assms collect_network_info_history [of os c]
  by (auto simp: collect_all_def Let_def split: sum.splits prod.splits)

lemma adapters_raise_by_print:
  "collect_cpu_info os = Inl e \<Longrightarrow> print_cpu_call os = Inl e"
  "collect_memory_info os = Inl e \<Longrightarrow> print_memory_call os = Inl e"
  "collect_disk_info os = Inl e \<Longrightarrow> print_disk_call os = Inl e"
  "fst (collect_network_info os c) = Inl e \<Longrightarrow> print_network_call os = Inl e"
  "collect_gpu_info G os = Inl e \<Longrightarrow> print_gpu_call os = Inl e"
  by (auto simp: collect_cpu_info_def collect_memory_info_def collect_disk_info_def
      collect_network_info_def collect_gpu_info_def and_then_def
      split: sum.splits prod.splits if_splits)

lemma collect_all_returns_if_written:
  assumes "prints_return os"
  shows "\<exists>s. fst (collect_all G os c) = Inr s"
proof (cases "fst (collect_all G os c)")
  case (Inl e)
  then have "print_cpu_call os = Inl e \<or> print_memory_call os = Inl e
      \<or> print_disk_call os = Inl e \<or> print_network_call os = Inl e
      \<or> print_gpu_call os = Inl e"
    using collect_all_raises(2) [OF Inl]
      adapters_raise_by_print(1) [where os = os and e = e]
      adapters_raise_by_print(2) [where os = os and e = e]
      adapters_raise_by_print(3) [where os = os and e = e]
      adapters_raise_by_print(4) [where os = os and e = e and c = c]
      adapters_raise_by_print(5) [where os = os and e = e and G = G]
    by blast
  with assms show ?thesis by (auto simp: prints_return_def)
next
  case (Inr s)
  then show ?thesis by blast
qed

lemma ticks_history:
  "data_history (snd (ticks G oss c)) = data_history c @ map snd (fst (ticks G oss c))
   \<and> map timestamp (map snd (fst (ticks G oss c)))
       = map datetime_now (map fst (fst (ticks G oss c)))"
proof (induction oss arbitrary: c)
  case Nil
  show ?case by simp
next
  case (Cons os rest)
  let ?c1 = "snd (collect_all G os c)"
  note IH = Cons.IH [of ?c1]
  show ?case
  proof (cases "fst (collect_all G os c)")
    case (Inl e)
    then show ?thesis
      using IH collect_all_raises(1) [OF Inl]
      by (simp add: split_beta Let_def)
  next
    case (Inr s)
    then show ?thesis
      using IH collect_all_returns(1,2) [OF Inr]
      by (simp add: split_beta Let_def)
  qed
qed

lemma ticks_all_return:
  "list_all prints_return oss \<Longrightarrow> map fst (fst (ticks G oss c)) = oss"
proof (induction oss arbitrary: c)
  case Nil
  show ?case by simp
next
  case (Cons os rest)
  then obtain s where "fst (collect_all G os c) = Inr s"
    using collect_all_returns_if_written [of os G c] by auto
  then show ?case
    using Cons by (simp add: split_beta Let_def)
qed

lemma ticks_keep_order:
  "sorted_wrt (<) (map datetime_now oss) \<Longrightarrow>
     sorted_wrt (<) (map datetime_now (map fst (fst (ticks G oss c))))
     \<and> set (map fst (fst (ticks G oss c))) \<subseteq> set oss"
proof (induction oss arbitrary: c)
  case Nil
  show ?case by simp
next
  case (Cons os rest)
  let ?c1 = "snd (collect_all G os c)"
  have rest: "sorted_wrt (<) (map datetime_now rest)"
    and first: "\<forall>x\<in>set rest. datetime_now os < datetime_now x"
    using Cons.prems by auto
  note IH = Cons.IH [OF rest, of ?c1]
  show ?case
  proof (cases "fst (collect_all G os c)")
    case (Inl e)
    then show ?thesis
      using IH by (auto simp: split_beta Let_def)
  next
    case (Inr s)
    then show ?thesis
      using IH first by (auto simp: split_beta Let_def)
  qed
qed

lemma successive_readings_sorted:
  fixes xs :: "real list"
  shows "(\<forall>i. Suc i < length xs \<longrightarrow> xs ! i < xs ! Suc i) = sorted_wrt (<) xs"
  by (simp add: sorted_wrt_iff_nth_Suc_transp)

lemma closed_stdout_raises:
  "collect_cpu_info (closed_stdout_tick now) = Inl OSError"
  "collect_all G (closed_stdout_tick now) c = (Inl OSError, c)"
  by (simp_all add: collect_all_def collect_cpu_info_def cpu_info_body_def and_then_def
      closed_stdout_tick_def)

lemma returned_with_closed_stdout:
  "map fst (fst (ticks False
      [healthy_tick 100 (counters 0 0) [] [], closed_stdout_tick 105,
       healthy_tick 110 (counters 9 9) [] []] c))
   = [healthy_tick 100 (counters 0 0) [] [], healthy_tick 110 (counters 9 9) [] []]"
proof -
  let ?a = "healthy_tick 100 (counters 0 0) [] []"
  let ?b = "healthy_tick 110 (counters 9 9) [] []"
  have written: "prints_return ?a" "prints_return ?b"
    by (simp_all add: prints_return_def healthy_tick_def)
  obtain s1 c1 where first: "collect_all False ?a c = (Inr s1, c1)"
    using collect_all_returns_if_written [OF written(1), of False c]
    by (metis prod.collapse)
  obtain s3 c3 where third: "collect_all False ?b c1 = (Inr s3, c3)"
    using collect_all_returns_if_written [OF written(2), of False c1]
    by (metis prod.collapse)
  show ?thesis
    by (simp add: first third closed_stdout_raises(2))
qed

text \<open>
  Claim C3, as amended. Over any sequence of sampler invocations the history only
  grows at its end: the entries it held stay where they were, it gains exactly the
  snapshots of the invocations that returned, so its length grows by their number (by
  the number of all invocations when every diagnostic can be written, for then every
  invocation returns), and the timestamps of the new entries are the readings of the wall
  clock at those invocations, in order. So, from an empty history, the timestamps are
  strictly increasing whenever the clock readings of successive ticks are.
\<close>

theorem history_invariant:
  "take (length (data_history c)) (data_history (snd (ticks G oss c))) = data_history c
   \<and> data_history (snd (ticks G oss c)) = data_history c @ map snd (fst (ticks G oss c))
   \<and> length (data_history (snd (ticks G oss c)))
       = length (data_history c) + length (fst (ticks G oss c))
   \<and> map timestamp (data_history (snd (ticks G oss c)))
       = map timestamp (data_history c) @ map datetime_now (map fst (fst (ticks G oss c)))
   \<and> (list_all prints_return oss \<longrightarrow>
        map fst (fst (ticks G oss c)) = oss
        \<and> length (data_history (snd (ticks G oss c))) = length (data_history c) + length oss
        \<and> map timestamp (data_history (snd (ticks G oss c)))
            = map timestamp (data_history c) @ map datetime_now oss)
   \<and> (data_history c = []
        \<and> (\<forall>i. Suc i < length oss \<longrightarrow> datetime_now (oss ! i) < datetime_now (oss ! Suc i))
      \<longrightarrow> (\<forall>i. Suc i < length (data_history (snd (ticks G oss c))) \<longrightarrow>
             timestamp (data_history (snd (ticks G oss c)) ! i)
               < timestamp (data_history (snd (ticks G oss c)) ! Suc i)))"
proof -
  let ?h = "data_history (snd (ticks G oss c))"
  let ?returned = "fst (ticks G oss c)"
  have hist: "?h = data_history c @ map snd ?returned"
    and stamps: "map timestamp (map snd ?returned) = map datetime_now (map fst ?returned)"
    using ticks_history [of G oss c] by blast+
  have kept: "take (length (data_history c)) ?h = data_history c"
    using hist by simp
  have len: "length ?h = length (data_history c) + length ?returned"
    using hist by simp
  have all_stamps: "map timestamp ?h
      = map timestamp (data_history c) @ map datetime_now (map fst ?returned)"
    using hist stamps by simp
  have written: "list_all prints_return oss \<longrightarrow>
        map fst ?returned = oss
        \<and> length ?h = length (data_history c) + length oss
        \<and> map timestamp ?h = map timestamp (data_history c) @ map datetime_now oss"
  proof
    assume "list_all prints_return oss"
    then have eq: "map fst ?returned = oss"
      by (rule ticks_all_return)
    then have "length ?returned = length oss"
      by (metis length_map)
    with eq len all_stamps
    show "map fst ?returned = oss
        \<and> length ?h = length (data_history c) + length oss
        \<and> map timestamp ?h = map timestamp (data_history c) @ map datetime_now oss"
      by simp
  qed
  have ordered: "data_history c = []
        \<and> (\<forall>i. Suc i < length oss \<longrightarrow> datetime_now (oss ! i) < datetime_now (oss ! Suc i))
      \<longrightarrow> (\<forall>i. Suc i < length ?h \<longrightarrow> timestamp (?h ! i) < timestamp (?h ! Suc i))"
  proof
    assume a: "data_history c = []
        \<and> (\<forall>i. Suc i < length oss \<longrightarrow> datetime_now (oss ! i) < datetime_now (oss ! Suc i))"
    then have "\<forall>i. Suc i < length (map datetime_now oss) \<longrightarrow>
        map datetime_now oss ! i < map datetime_now oss ! Suc i"
      by simp
    then have "sorted_wrt (<) (map datetime_now oss)"
      using successive_readings_sorted [of "map datetime_now oss"] by blast
    then have "sorted_wrt (<) (map datetime_now (map fst ?returned))"
      using ticks_keep_order by blast
    then have "sorted_wrt (<) (map timestamp ?h)"
      using all_stamps a by simp
    then have "\<forall>i. Suc i < length (map timestamp ?h) \<longrightarrow>
        map timestamp ?h ! i < map timestamp ?h ! Suc i"
      using successive_readings_sorted [of "map timestamp ?h"] by blast
    then show "\<forall>i. Suc i < length ?h \<longrightarrow> timestamp (?h ! i) < timestamp (?h ! Suc i)"
      by simp
  qed
  show ?thesis
    using kept hist len all_stamps written ordered by blast
qed

theorem history_invariant_witness:
  "map timestamp (data_history (snd (ticks False
       [healthy_tick 100 (counters 0 0) [] [], failing_tick 105, healthy_tick 110 (counters 9 9) [] []]
       (fresh_collector (counters 0 0) 99)))) = [100, 105, 110]
   \<and> timestamp (data_history (snd (ticks False
       [healthy_tick 100 (counters 0 0) [] [], failing_tick 105, healthy_tick 110 (counters 9 9) [] []]
       (fresh_collector (counters 0 0) 99))) ! 0)
     < timestamp (data_history (snd (ticks False
       [healthy_tick 100 (counters 0 0) [] [], failing_tick 105, healthy_tick 110 (counters 9 9) [] []]
       (fresh_collector (counters 0 0) 99))) ! Suc 0)
   \<and> timestamp (data_history (snd (ticks False
       [healthy_tick 100 (counters 0 0) [] [], failing_tick 105, healthy_tick 110 (counters 9 9) [] []]
       (fresh_collector (counters 0 0) 99))) ! Suc 0)
     < timestamp (data_history (snd (ticks False
       [healthy_tick 100 (counters 0 0) [] [], failing_tick 105, healthy_tick 110 (counters 9 9) [] []]
       (fresh_collector (counters 0 0) 99))) ! Suc (Suc 0))
   \<and> length (data_history (snd (ticks False
       [healthy_tick 100 (counters 0 0) [] [], closed_stdout_tick 105,
        healthy_tick 110 (counters 9 9) [] []]
       (fresh_collector (counters 0 0) 99)))) = 2
   \<and> map timestamp (data_history (snd (ticks False
       [healthy_tick 100 (counters 0 0) [] [], closed_stdout_tick 105,
        healthy_tick 110 (counters 9 9) [] []]
       (fresh_collector (counters 0 0) 99)))) = [100, 110]"
proof -
  let ?oss = "[healthy_tick 100 (counters 0 0) [] [], failing_tick 105,
      healthy_tick 110 (counters 9 9) [] []]"
  let ?oss' = "[healthy_tick 100 (counters 0 0) [] [], closed_stdout_tick 105,
      healthy_tick 110 (counters 9 9) [] []]"
  let ?c = "fresh_collector (counters 0 0) 99"
  let ?h = "data_history (snd (ticks False ?oss ?c))"
  let ?h' = "data_history (snd (ticks False ?oss' ?c))"
  have empty: "data_history ?c = []"
    by (simp add: fresh_collector_def)
  have written: "list_all prints_return ?oss"
    by (simp add: prints_return_def healthy_tick_def failing_tick_def)
  have clock: "\<forall>i. Suc i < length ?oss \<longrightarrow> datetime_now (?oss ! i) < datetime_now (?oss ! Suc i)"
  proof (intro allI impI)
    fix i assume "Suc i < length ?oss"
    then have "i = 0 \<or> i = 1" by auto
    then show "datetime_now (?oss ! i) < datetime_now (?oss ! Suc i)"
      by (auto simp: healthy_tick_def failing_tick_def)
  qed
  note inv = history_invariant [of ?c False ?oss]
  note inv' = history_invariant [of ?c False ?oss']
  have "map timestamp ?h = map timestamp (data_history ?c) @ map datetime_now ?oss"
    using inv written by blast
  then have stamps: "map timestamp ?h = [100, 105, 110]"
    by (simp add: empty healthy_tick_def failing_tick_def del: ticks.simps)
  then have len: "length ?h = 3"
    by (metis length_map length_Cons list.size(3) numeral_3_eq_3)
  have strict: "\<forall>i. Suc i < length ?h \<longrightarrow> timestamp (?h ! i) < timestamp (?h ! Suc i)"
    using inv empty clock by blast
  have first: "timestamp (?h ! 0) < timestamp (?h ! Suc 0)"
    using strict len by simp
  have second: "timestamp (?h ! Suc 0) < timestamp (?h ! Suc (Suc 0))"
    using strict len by simp
  have "map timestamp ?h' = map timestamp (data_history ?c)
      @ map datetime_now (map fst (fst (ticks False ?oss' ?c)))"
    using inv' by blast
  then have "map timestamp ?h' = map timestamp (data_history ?c)
      @ map datetime_now
          [healthy_tick 100 (counters 0 0) [] [], healthy_tick 110 (counters 9 9) [] []]"
    by (simp only: returned_with_closed_stdout)
  then have two: "map timestamp ?h' = [100, 110]"
    by (simp add: empty healthy_tick_def del: ticks.simps)
  then have len': "length ?h' = 2"
    by (metis length_map length_Cons list.size(3) numeral_2_eq_2)
  show ?thesis
    using stamps first second len' two by blast
qed

lemma ticks_written_stamps:
  assumes "list_all prints_return oss"
  shows "map timestamp (data_history (snd (ticks G oss c)))
    = map timestamp (data_history c) @ map datetime_now oss"
  using ticks_history [of G oss c] ticks_all_return [OF assms, of G c] by simp

lemma sampling_loop_step:
  assumes "raised (sched i) = None" and "fst (collect_all G (os_answers (sched i)) c) = Inr s"
  shows "sampling_loop G sched i (Suc left) c
    = sampling_loop G sched (Suc i) left (snd (collect_all G (os_answers (sched i)) c))"
  using assms by (cases "collect_all G (os_answers (sched i)) c") simp

lemma sampling_loop_raise:
  assumes "raised (sched i) = None" and "fst (collect_all G (os_answers (sched i)) c) = Inl e"
  shows "sampling_loop G sched i (Suc left) c
    = handler_exit i (snd (collect_all G (os_answers (sched i)) c))"
  using assms by (cases "collect_all G (os_answers (sched i)) c") simp

lemma ticks_snd_Cons:
  "snd (ticks G (os # rest) c) = snd (ticks G rest (snd (collect_all G os c)))"
  by (simp add: split_beta Let_def)

lemma schedule_Cons:
  "map f [i..<i + Suc n] = f i # map f [Suc i..<Suc i + n]"
proof -
  have "[i..<i + Suc n] = i # [Suc i..<Suc i + n]"
    by (simp add: upt_conv_Cons)
  then show ?thesis by (simp only: list.map)
qed

lemma sampling_loop_undisturbed:
  assumes "\<forall>j. i \<le> j \<and> j < i + left \<longrightarrow>
      raised (sched j) = None \<and> prints_return (os_answers (sched j))"
  shows "sampling_loop G sched i left c
    = Completed (snd (ticks G (map (\<lambda>j. os_answers (sched j)) [i..<i + left]) c))"
  using assms
proof (induction left arbitrary: i c)
  case 0
  show ?case by simp
next
  case (Suc left)
  have here: "raised (sched i) = None" "prints_return (os_answers (sched i))"
    using Suc.prems by auto
  obtain s where s: "fst (collect_all G (os_answers (sched i)) c) = Inr s"
    using collect_all_returns_if_written [OF here(2)] by blast
  have later: "\<forall>j. Suc i \<le> j \<and> j < Suc i + left \<longrightarrow>
      raised (sched j) = None \<and> prints_return (os_answers (sched j))"
    using Suc.prems by auto
  have "sampling_loop G sched i (Suc left) c
      = sampling_loop G sched (Suc i) left (snd (collect_all G (os_answers (sched i)) c))"
    by (rule sampling_loop_step [where sched = sched and i = i, OF here(1) s])
  also have "\<dots> = Completed (snd (ticks G (map (\<lambda>j. os_answers (sched j))
      [Suc i..<Suc i + left]) (snd (collect_all G (os_answers (sched i)) c))))"
    by (rule Suc.IH [OF later])
  also have "\<dots> = Completed (snd (ticks G (map (\<lambda>j. os_answers (sched j))
      [i..<i + Suc left]) c))"
    by (simp only: schedule_Cons ticks_snd_Cons)
  finally show ?case .
qed

lemma monitor_clock_set_back:
  "monitor_system False (Inr (Some (counters 0 0))) 7195 1 30 clock_set_back =
     Renders (data_history (snd (ticks False
       [healthy_tick 7200 (counters 0 0) [] [], healthy_tick 7170 (counters 0 0) [] []]
       (fresh_collector (counters 0 0) 7195))))"
proof -
  let ?oss = "[healthy_tick 7200 (counters 0 0) [] [], healthy_tick 7170 (counters 0 0) [] []]"
  let ?c = "fresh_collector (counters 0 0) 7195"
  have quiet: "\<forall>j. 0 \<le> j \<and> j < 0 + Suc (Suc 0) \<longrightarrow>
      raised (clock_set_back j) = None \<and> prints_return (os_answers (clock_set_back j))"
    by (simp add: clock_set_back_def prints_return_def healthy_tick_def)
  have sched: "map (\<lambda>j. os_answers (clock_set_back j)) [0..<0 + Suc (Suc 0)] = ?oss"
    by (simp add: clock_set_back_def upt_conv_Cons)
  have loop: "sampling_loop False clock_set_back 0 (Suc (Suc 0)) ?c
      = Completed (snd (ticks False ?oss ?c))"
    using sampling_loop_undisturbed [OF quiet, of False ?c] by (simp only: sched)
  have written: "list_all prints_return ?oss"
    by (simp add: prints_return_def healthy_tick_def)
  have "map timestamp (data_history (snd (ticks False ?oss ?c))) \<noteq> []"
    using ticks_written_stamps [OF written, of False ?c] by simp
  then have nonempty: "data_history (snd (ticks False ?oss ?c)) \<noteq> []"
    by auto
  have n: "nat ((1 * 60) div 30) = Suc (Suc 0)" by simp
  have init: "init_collector (Inr (Some (counters 0 0))) 7195 = Inr ?c"
    by (simp add: init_collector_def and_then_def fresh_collector_def)
  show ?thesis
    unfolding monitor_system_def init n Let_def
    using loop nonempty
    by (simp add: after_loop_def get_history_def del: sampling_loop.simps ticks.simps)
qed

text \<open>
  The code reads \<^verbatim>\<open>datetime.now()\<close> and compares nothing: with a positive sampling
  interval of 30 seconds and a wall clock set back between the two ticks of a run, the
  history that reaches the renderers has a later entry with an earlier timestamp.
\<close>

theorem timestamps_not_increasing_counterexample:
  "map_option (map timestamp)
     (rendered (monitor_system False (Inr (Some (counters 0 0))) 7195 1 30 clock_set_back))
     = Some [7200, 7170]
   \<and> \<not> (7200 :: real) < 7170"
proof -
  have written: "list_all prints_return
      [healthy_tick 7200 (counters 0 0) [] [], healthy_tick 7170 (counters 0 0) [] []]"
    by (simp add: prints_return_def healthy_tick_def)
  have "map timestamp (data_history (snd (ticks False
       [healthy_tick 7200 (counters 0 0) [] [], healthy_tick 7170 (counters 0 0) [] []]
       (fresh_collector (counters 0 0) 7195)))) = [7200, 7170]"
    using ticks_written_stamps [OF written, of False "fresh_collector (counters 0 0) 7195"]
    by (simp add: fresh_collector_def healthy_tick_def)
  then show ?thesis
    by (simp add: monitor_clock_set_back rendered_def)
qed

section \<open>Cancellation of a run\<close>

text \<open>
  Claim C2. Three ticks are scheduled (one minute, every 20 seconds); the first tick is
  collected and a KeyboardInterrupt arrives in the sleep that follows it. The handler
  tests the loop index, which is still 0, and returns: the run ends without rendering,
  and the history it abandons holds the one snapshot collected.
\<close>

theorem cancel_in_first_sleep_discards_history:
  "\<exists>s. fst (collect_all False (healthy_tick 100 (counters 0 0) [] [])
          (fresh_collector (counters 0 0) 99)) = Inr s
     \<and> monitor_system False (Inr (Some (counters 0 0))) 99 1 20 interrupted_in_first_sleep
        = Exits_without_report [s]"
proof -
  let ?os = "healthy_tick 100 (counters 0 0) [] []"
  let ?c = "fresh_collector (counters 0 0) 99"
  have "prints_return ?os"
    by (simp add: prints_return_def healthy_tick_def)
  then obtain s where s: "fst (collect_all False ?os ?c) = Inr s"
    using collect_all_returns_if_written by blast
  have hist: "data_history (snd (collect_all False ?os ?c)) = [s]"
    using collect_all_returns(1) [OF s] by (simp add: fresh_collector_def)
  have n: "nat ((1 * 60) div 20) = Suc (Suc (Suc 0))" by simp
  have init: "init_collector (Inr (Some (counters 0 0))) 99 = Inr ?c"
    by (simp add: init_collector_def and_then_def fresh_collector_def)
  have "monitor_system False (Inr (Some (counters 0 0))) 99 1 20 interrupted_in_first_sleep
      = Exits_without_report [s]"
    unfolding monitor_system_def init n Let_def
    using hist by (simp add: interrupted_in_first_sleep_def handler_exit_def)
  with s show ?thesis by blast
qed

text \<open>
  An interruption in any later iteration leaves the loop by \<^verbatim>\<open>break\<close> with the history
  collected so far.
\<close>

lemma interrupt_after_first_iteration_keeps_history:
  assumes "i > 0" and "raised (sched i) = Some (h, p)"
  shows "\<exists>c1. sampling_loop G sched i (Suc left) c = Break c1
    \<and> take (length (data_history c)) (data_history c1) = data_history c"
proof (cases p)
  case Before_append
  then show ?thesis using assms by (simp add: handler_exit_def)
next
  case After_append
  have "take (length (data_history c))
      (data_history (snd (collect_all G (os_answers (sched i)) c))) = data_history c"
  proof (cases "fst (collect_all G (os_answers (sched i)) c)")
    case (Inl e)
    then show ?thesis using collect_all_raises(1) [OF Inl] by simp
  next
    case (Inr s)
    then show ?thesis using collect_all_returns(1) [OF Inr] by simp
  qed
  then show ?thesis using assms After_append by (simp add: handler_exit_def)
qed

text \<open>
  However the loop of \<^verbatim>\<open>monitor_system\<close> ends, its collector is the one that some
  number of sampler invocations in a row produce.
\<close>

lemma sampling_loop_is_ticks:
  "\<exists>n\<le>left. exit_collector (sampling_loop G sched i left c)
      = snd (ticks G (map (\<lambda>j. os_answers (sched j)) [i..<i + n]) c)"
proof (induction left arbitrary: i c)
  case 0
  show ?case by (simp add: exit_collector_def)
next
  case (Suc left)
  let ?os = "os_answers (sched i)"
  have one: "snd (ticks G (map (\<lambda>j. os_answers (sched j)) [i..<i + Suc 0]) c)
      = snd (collect_all G ?os c)"
    by (simp only: schedule_Cons ticks_snd_Cons) simp
  show ?case
  proof (cases "raised (sched i)")
    case None
    show ?thesis
    proof (cases "fst (collect_all G ?os c)")
      case (Inl e)
      then have "exit_collector (sampling_loop G sched i (Suc left) c)
          = snd (collect_all G ?os c)"
        using sampling_loop_raise [where sched = sched and i = i and left = left, OF None Inl]
        by (simp add: handler_exit_def exit_collector_def)
      then have "exit_collector (sampling_loop G sched i (Suc left) c)
          = snd (ticks G (map (\<lambda>j. os_answers (sched j)) [i..<i + Suc 0]) c)"
        using one by simp
      moreover have "Suc 0 \<le> Suc left" by simp
      ultimately show ?thesis by blast
    next
      case (Inr s)
      obtain n where n: "n \<le> left"
        "exit_collector (sampling_loop G sched (Suc i) left (snd (collect_all G ?os c)))
          = snd (ticks G (map (\<lambda>j. os_answers (sched j)) [Suc i..<Suc i + n])
              (snd (collect_all G ?os c)))"
        using Suc.IH by blast
      have "exit_collector (sampling_loop G sched i (Suc left) c)
          = snd (ticks G (map (\<lambda>j. os_answers (sched j)) [i..<i + Suc n]) c)"
        using n(2) by (simp only: sampling_loop_step [where sched = sched and i = i, OF None Inr]
            schedule_Cons ticks_snd_Cons)
      moreover have "Suc n \<le> Suc left" using n(1) by simp
      ultimately show ?thesis by blast
    qed
  next
    case (Some hp)
    obtain h p where hp: "hp = (h, p)" by (cases hp)
    show ?thesis
    proof (cases p)
      case Before_append
      then have "exit_collector (sampling_loop G sched i (Suc left) c)
          = snd (ticks G (map (\<lambda>j. os_answers (sched j)) [i..<i + 0]) c)"
        using Some hp by (simp add: handler_exit_def exit_collector_def)
      then show ?thesis by blast
    next
      case After_append
      then have "exit_collector (sampling_loop G sched i (Suc left) c)
          = snd (collect_all G ?os c)"
        using Some hp by (simp add: handler_exit_def exit_collector_def)
      then have "exit_collector (sampling_loop G sched i (Suc left) c)
          = snd (ticks G (map (\<lambda>j. os_answers (sched j)) [i..<i + Suc 0]) c)"
        using one by simp
      moreover have "Suc 0 \<le> Suc left" by simp
      ultimately show ?thesis by blast
    qed
  qed
qed

section \<open>Failures inside the adapters\<close>











end
